theory Spec2Isabelle
  imports Main
begin

section \<open>Python strings\<close>

text \<open>
  A Python \<open>str\<close> is a sequence of Unicode code points, so it is modelled as a list of
  natural numbers, one per code point (\<open>len\<close> is \<open>length\<close>). ASCII literals of the
  source are written with \<open>str\<close>; the few non-ASCII literals are given by their code
  points.
\<close>

type_synonym pystr = "nat list"

definition str :: "string \<Rightarrow> pystr" where
  "str s = map of_char s"

definition startswith :: "pystr \<Rightarrow> pystr \<Rightarrow> bool" where
  \<comment> \<open>\<open>s.startswith(p)\<close>\<close>
  "startswith s p = (take (length p) s = p)"

definition endswith :: "pystr \<Rightarrow> pystr \<Rightarrow> bool" where
  \<comment> \<open>\<open>s.endswith(suffix)\<close>: the last \<open>len(suffix)\<close> code points of \<open>s\<close> are \<open>suffix\<close>\<close>
  "endswith s suffix =
     (length suffix \<le> length s \<and> drop (length s - length suffix) s = suffix)"

definition isspace :: "nat \<Rightarrow> bool" where
  \<comment> \<open>the code points that \<open>str.strip()\<close> removes (Unicode white space)\<close>
  "isspace c =
     ((9 \<le> c \<and> c \<le> 13) \<or> (28 \<le> c \<and> c \<le> 32) \<or> c = 133 \<or> c = 160 \<or> c = 5760
      \<or> (8192 \<le> c \<and> c \<le> 8202) \<or> c = 8232 \<or> c = 8233 \<or> c = 8239 \<or> c = 8287
      \<or> c = 12288)"

definition strip :: "pystr \<Rightarrow> pystr" where
  \<comment> \<open>\<open>s.strip()\<close>\<close>
  "strip s = rev (dropWhile isspace (rev (dropWhile isspace s)))"

fun join :: "pystr \<Rightarrow> pystr list \<Rightarrow> pystr" where
  \<comment> \<open>\<open>sep.join(items)\<close> for items that are all \<open>str\<close>\<close>
  "join sep [] = []"
| "join sep [x] = x"
| "join sep (x # y # ys) = x @ sep @ join sep (y # ys)"

function replace :: "pystr \<Rightarrow> pystr \<Rightarrow> pystr \<Rightarrow> pystr" where
  \<comment> \<open>\<open>s.replace(old, new)\<close>: every non-overlapping occurrence, leftmost first\<close>
  "replace old new s =
     (if old = [] then new @ concat (map (\<lambda>c. c # new) s)
      else if startswith s old then new @ replace old new (drop (length old) s)
      else (case s of [] \<Rightarrow> [] | c # cs \<Rightarrow> c # replace old new cs))"
  by pat_completeness auto
termination
proof (relation "measure (\<lambda>(old, new, s). length s)", goal_cases)
  case 1
  show ?case by simp
next
  case (2 old new s)
  then have "old \<noteq> []" and "s \<noteq> []"
    by (auto simp: startswith_def)
  then show ?case by simp
next
  case (3 old new s c cs)
  then show ?case by simp
qed

declare replace.simps [simp del]

fun str_nat :: "nat \<Rightarrow> pystr" where
  \<comment> \<open>the decimal digits of a non-negative \<open>int\<close>, as an f-string renders it\<close>
  "str_nat n = (if n < 10 then [48 + n] else str_nat (n div 10) @ [48 + n mod 10])"

declare str_nat.simps [simp del]

section \<open>Configuration (config/config.py)\<close>

record config =
  GPT_MESSAGE :: pystr
  EXCLUDE_FILE_TYPES :: "pystr list"
  IGNORE_FILE_TYPES :: "pystr list"
  MAX_FILES :: nat

definition config_py :: "pystr \<Rightarrow> config" where
  \<comment> \<open>The values of config.py. The prompt text \<open>GPT_MESSAGE\<close> is an opaque payload
      for the model and is left as a parameter.\<close>
  "config_py prompt =
     \<lparr> GPT_MESSAGE = prompt,
       EXCLUDE_FILE_TYPES =
         [str ''.js'', str ''.ts'', str ''.tsx'', str ''.less'', str ''.py'', str ''.java'',
          str ''.class'', str ''.vue'', str ''.go'', str ''.c'', str ''.cpp''],
       IGNORE_FILE_TYPES = [str ''mod.go''],
       MAX_FILES = 50 \<rparr>"

section \<open>The file filter\<close>

text \<open>
  The source has no function for the filter: the condition
  \<^verbatim>\<open>any(p.endswith(ext) for ext in EXCLUDE_FILE_TYPES) and not any(p.endswith(ext) for ext in IGNORE_FILE_TYPES)\<close>
  is written out in \<open>chat_review\<close> (lines 24-28) and in \<open>default_handle\<close>
  (lines 145-146). \<open>is_reviewable\<close> is that condition, with the two lists as arguments.
\<close>

definition is_reviewable :: "pystr list \<Rightarrow> pystr list \<Rightarrow> pystr \<Rightarrow> bool" where
  "is_reviewable inc ign p =
     (list_ex (\<lambda>ext. endswith p ext) inc \<and> \<not> list_ex (\<lambda>ext. endswith p ext) ign)"

section \<open>Stripping the reasoning block\<close>

text \<open>
  \<open>remove_think_content\<close> (lines 84-90) is
  \<^verbatim>\<open>re.sub(r"<think>.*?</think>", "", content, flags=re.DOTALL)\<close> followed by
  \<open>strip()\<close>. The pattern has no alternatives and cannot match the empty string, so
  \<open>re.sub\<close> scans from the left: at a position where \<open><think>\<close> starts and a
  \<open></think>\<close> follows, the lazy \<open>.*?\<close> (any code point, newlines too) ends at the
  first such \<open></think>\<close>, the match is replaced by the empty string and the scan goes
  on behind it; at any other position one code point is copied. \<open>find_close\<close> returns
  the text behind the first \<open></think>\<close>, if there is one.
\<close>

definition open_tag :: pystr where "open_tag = str ''<think>''"
definition close_tag :: pystr where "close_tag = str ''</think>''"

fun find_close :: "pystr \<Rightarrow> pystr option" where
  "find_close [] = None"
| "find_close (c # cs) =
     (if startswith (c # cs) close_tag then Some (drop (length close_tag) (c # cs))
      else find_close cs)"

lemma find_close_length: "find_close s = Some rest \<Longrightarrow> length rest \<le> length s"
  by (induction s) (auto split: if_splits)

function re_sub_think :: "pystr \<Rightarrow> pystr" where
  "re_sub_think [] = []"
| "re_sub_think (c # cs) =
     (if startswith (c # cs) open_tag then
        (case find_close (drop (length open_tag) (c # cs)) of
           Some rest \<Rightarrow> re_sub_think rest
         | None \<Rightarrow> c # re_sub_think cs)
      else c # re_sub_think cs)"
  by pat_completeness auto
termination
proof (relation "measure length", goal_cases)
  case 1
  show ?case by simp
next
  case (2 c cs)
  show ?case by simp
next
  case (3 c cs rest)
  have "length rest \<le> length (drop (length open_tag) (c # cs))"
    using 3 by (intro find_close_length)
  also have "\<dots> < length (c # cs)"
    by (simp add: open_tag_def str_def)
  finally show ?case by simp
next
  case (4 c cs)
  show ?case by simp
qed

definition remove_think_content :: "pystr \<Rightarrow> pystr" where
  "remove_think_content content = strip (re_sub_think content)"

section \<open>Data of one merge-request event\<close>

text \<open>
  The dictionaries of the source are records of the keys the handler reads, so a missing
  key is excluded by the type. \<open>hook_info\<close> flattens the nested webhook payload:
  \<open>project_name\<close> is \<open>hook_info['project']['name']\<close> and so on.

  The three DingTalk templates are kept symbolic: \<open>ReviewDone\<close> stands for the
  f-string of lines 185-194, \<open>ReviewPass\<close> for lines 203-213 and \<open>TooManyFiles\<close>
  for lines 223-231, each with the values it interpolates; \<open>Text\<close> is a literal string.

  Exceptions are values: \<open>TypeError\<close> is raised by Python itself, \<open>External\<close> is
  any exception raised by a collaborator that is not part of the source (the fetcher,
  the model client, \<open>filter_diff_content\<close>).

  The collaborators are parameters. A model client is a state of type \<open>'m\<close> with its
  three methods; \<open>generate_text\<close> may change the state also when it raises. The
  fetcher is given by the results of its two calls.

  The effects of the handler are collected in a \<open>world\<close>: the state of the model
  client, the payloads passed to \<open>generate_text\<close>, the log (level and source line
  of each logging call), the delays slept by the retry decorator in milliseconds, and
  the dictionaries passed to \<open>reply.add_reply\<close>.
\<close>

datatype exn = TypeError | External string

datatype level = INFO | ERROR

record change =
  new_path :: pystr
  new_file :: bool
  diff :: pystr

record hook_info =
  project_name :: pystr
  project_id :: pystr
  source_branch :: pystr
  target_branch :: pystr
  url :: pystr
  iid :: pystr

datatype body =
    Text pystr
  | ReviewDone hook_info nat
  | ReviewPass hook_info nat
  | TooManyFiles hook_info nat

record reply =
  title :: "pystr option"
  content :: body
  msg_type :: pystr
  target :: pystr

type_synonym message = "pystr \<times> pystr"

record 'm llm =
  generate_text :: "message list \<Rightarrow> 'm \<Rightarrow> (exn + unit) \<times> 'm"
  get_respond_content :: "'m \<Rightarrow> exn + pystr"
  get_respond_tokens :: "'m \<Rightarrow> exn + nat"

record 'i fetcher =
  get_changes :: "exn + change list option"
  get_info :: "exn + 'i"

record 'm world =
  llm_state :: 'm
  sent :: "message list list"
  logs :: "(level \<times> nat) list"
  sleeps :: "nat list"
  replies :: "reply list"

section \<open>The review worker (lines 38-81)\<close>

text \<open>
  \<open>log\<close> is a call of \<open>log.info\<close> or \<open>log.error\<close> at the given source line and
  \<open>add_reply\<close> is \<open>reply.add_reply\<close>.

  \<open>review_note_try\<close> is the \<open>try\<close> block of \<open>generate_review_note\<close> (lines 42-79):
  each call that can raise is a case distinction, and the first exception ends the
  block. \<open>generate_review_note_body\<close> is the function as written, the block with its
  handler \<open>except Exception\<close> (lines 80-81), which logs and returns nothing, that is
  \<open>None\<close>. \<open>generate_review_note\<close> is the decorated function. The non-ASCII literals
  are given by code points: 35831 and 36825 \<dots> 26356 are the Chinese words around
  \<open>review\<close> in line 57, 128218 is the book emoji of line 75 and 24847 \<dots> 19979 the
  words behind \<open>AI review\<close> in line 76; 10 is the newline.
\<close>

definition log :: "level \<Rightarrow> nat \<Rightarrow> 'm world \<Rightarrow> 'm world" where
  "log lv line w = w\<lparr>logs := logs w @ [(lv, line)]\<rparr>"

definition add_reply :: "reply \<Rightarrow> 'm world \<Rightarrow> 'm world" where
  "add_reply r w = w\<lparr>replies := replies w @ [r]\<rparr>"

definition review_note_try ::
  "config \<Rightarrow> (pystr \<Rightarrow> exn + pystr) \<Rightarrow> change \<Rightarrow> 'm llm \<Rightarrow> 'm world
   \<Rightarrow> (exn + pystr) \<times> 'm world" where
  "review_note_try cfg filter_diff_content change model w =
     (let w = log INFO 43 (log INFO 42 w) in
      case filter_diff_content (diff change) of
        Inl e \<Rightarrow> (Inl e, w)
      | Inr content' \<Rightarrow>
          let w = log INFO 51 w;
              messages =
                [(str ''system'', GPT_MESSAGE cfg),
                 (str ''user'',
                  [35831] @ str ''review'' @ [36825, 37096, 20998, 20195, 30721, 21464, 26356]
                  @ content')];
              w = log INFO 61 (log INFO 60 w);
              w = w\<lparr>sent := sent w @ [messages]\<rparr>
          in case generate_text model messages (llm_state w) of
               (Inl e, m) \<Rightarrow> (Inl e, w\<lparr>llm_state := m\<rparr>)
             | (Inr _, m) \<Rightarrow>
                 let w = w\<lparr>llm_state := m\<rparr>;
                     w = log INFO 66 w
                 in case get_respond_content model m of
                      Inl e \<Rightarrow> (Inl e, w)
                    | Inr text \<Rightarrow>
                        let response_content = replace [10, 10] [10] text;
                            response_content = remove_think_content response_content;
                            w = log INFO 73 w
                        in case get_respond_tokens model m of
                             Inl e \<Rightarrow> (Inl e, w)
                           | Inr total_tokens \<Rightarrow>
                               let review_note = [35, 32, 128218, 96] @ new_path change @ [96] @ [10, 10];
                                   review_note = review_note @ str ''('' @ str_nat total_tokens
                                     @ str '' tokens) '' @ str ''AI review ''
                                     @ [24847, 35265, 22914, 19979] @ str '':'' @ [10, 10];
                                   review_note = review_note @ response_content
                                     @ [10, 10] @ str ''---'' @ [10, 10] @ str ''---'' @ [10, 10];
                                   w = log INFO 78 w
                               in (Inr review_note, w))"

definition generate_review_note_body ::
  "config \<Rightarrow> (pystr \<Rightarrow> exn + pystr) \<Rightarrow> change \<Rightarrow> 'm llm \<Rightarrow> 'm world
   \<Rightarrow> (exn + pystr option) \<times> 'm world" where
  "generate_review_note_body cfg filter_diff_content change model w =
     (case review_note_try cfg filter_diff_content change model w of
        (Inr review_note, w') \<Rightarrow> (Inr (Some review_note), w')
      | (Inl e, w') \<Rightarrow> (Inr None, log ERROR 81 w'))"

text \<open>
  Modelled from the spec: the decorator \<open>retry\<close> comes from the package
  \<open>retrying\<close>, which is not under src/. With \<open>stop_max_attempt_number\<close> and
  \<open>wait_fixed\<close> it calls the function; a normal return is the result; on an exception
  it stops and re-raises the exception when the number of the attempt (counted from 1)
  has reached \<open>stop_max_attempt_number\<close>, and otherwise sleeps \<open>wait_fixed\<close>
  milliseconds and calls the function again (the spec: up to 3 total attempts with a
  fixed 60-second delay between attempts).
\<close>

function retry_call ::
  "nat \<Rightarrow> nat \<Rightarrow> ('m world \<Rightarrow> (exn + 'a) \<times> 'm world) \<Rightarrow> nat \<Rightarrow> 'm world
   \<Rightarrow> (exn + 'a) \<times> 'm world" where
  "retry_call stop_max_attempt_number wait_fixed fn attempt_number w =
     (case fn w of
        (Inr v, w') \<Rightarrow> (Inr v, w')
      | (Inl e, w') \<Rightarrow>
          if stop_max_attempt_number \<le> attempt_number then (Inl e, w')
          else retry_call stop_max_attempt_number wait_fixed fn (Suc attempt_number)
                 (w'\<lparr>sleeps := sleeps w' @ [wait_fixed]\<rparr>))"
  by pat_completeness auto
termination
  by (relation "measure (\<lambda>(n, wt, fn, k, w). n - k)") auto

declare retry_call.simps [simp del]

definition retry ::
  "nat \<Rightarrow> nat \<Rightarrow> ('m world \<Rightarrow> (exn + 'a) \<times> 'm world) \<Rightarrow> 'm world \<Rightarrow> (exn + 'a) \<times> 'm world" where
  "retry stop_max_attempt_number wait_fixed fn w =
     retry_call stop_max_attempt_number wait_fixed fn 1 w"

definition generate_review_note ::
  "config \<Rightarrow> (pystr \<Rightarrow> exn + pystr) \<Rightarrow> change \<Rightarrow> 'm llm \<Rightarrow> 'm world
   \<Rightarrow> (exn + pystr option) \<times> 'm world" where
  "generate_review_note cfg filter_diff_content change model =
     retry 3 60000 (generate_review_note_body cfg filter_diff_content change model)"

section \<open>The dispatcher (lines 11-35)\<close>

text \<open>
  \<open>chat_review\<close> submits one task per reviewable change to a thread pool and waits
  for all of them. The embedding runs the tasks one after the other in the order of
  submission, which is one of the schedules of the pool; interleavings of the tasks
  are outside of it. A task whose \<open>generate_review\<close> raises keeps the exception in
  its future, which nobody reads, and appends nothing. \<open>py_join\<close> is
  \<open>"\\n\\n".join(review_results)\<close>, which raises \<open>TypeError\<close> on an item that is
  not a \<open>str\<close>: a result \<open>None\<close> of the worker.
\<close>

definition process_change ::
  "(change \<Rightarrow> 'm world \<Rightarrow> (exn + pystr option) \<times> 'm world) \<Rightarrow> change
   \<Rightarrow> pystr option list \<times> 'm world \<Rightarrow> pystr option list \<times> 'm world" where
  "process_change generate_review change st =
     (case st of (review_results, w) \<Rightarrow>
        (case generate_review change w of
           (Inr result, w') \<Rightarrow> (review_results @ [result], w')
         | (Inl e, w') \<Rightarrow> (review_results, w')))"

fun submit_changes ::
  "config \<Rightarrow> (change \<Rightarrow> 'm world \<Rightarrow> (exn + pystr option) \<times> 'm world) \<Rightarrow> change list
   \<Rightarrow> pystr option list \<times> 'm world \<Rightarrow> pystr option list \<times> 'm world" where
  "submit_changes cfg generate_review [] st = st"
| "submit_changes cfg generate_review (change # changes) st =
     (if is_reviewable (EXCLUDE_FILE_TYPES cfg) (IGNORE_FILE_TYPES cfg) (new_path change)
      then submit_changes cfg generate_review changes (process_change generate_review change st)
      else submit_changes cfg generate_review changes (apsnd (log INFO 31) st))"

fun all_str :: "pystr option list \<Rightarrow> pystr list option" where
  "all_str [] = Some []"
| "all_str (None # items) = None"
| "all_str (Some x # items) = map_option ((#) x) (all_str items)"

definition py_join :: "pystr \<Rightarrow> pystr option list \<Rightarrow> exn + pystr" where
  "py_join sep items =
     (case all_str items of None \<Rightarrow> Inl TypeError | Some xs \<Rightarrow> Inr (join sep xs))"

definition chat_review ::
  "config \<Rightarrow> change list \<Rightarrow> (change \<Rightarrow> 'm world \<Rightarrow> (exn + pystr option) \<times> 'm world)
   \<Rightarrow> 'm world \<Rightarrow> (exn + pystr) \<times> 'm world" where
  "chat_review cfg changes generate_review w =
     (case submit_changes cfg generate_review changes ([], log INFO 12 w) of
        (review_results, w') \<Rightarrow>
          if review_results \<noteq> [] then (py_join [10, 10] review_results, w')
          else (Inr [], w'))"

section \<open>The handler (lines 93-241)\<close>

text \<open>
  \<open>changes\<close> is what \<open>get_changes()\<close> returned: \<open>None\<close> or a list. Line 108 of
  \<open>merge_handle\<close> takes \<open>len(changes)\<close> without a guard, which raises \<open>TypeError\<close>
  on \<open>None\<close>. The reply sink is the field \<open>replies\<close> of the world.
\<close>

definition default_handle ::
  "config \<Rightarrow> (pystr \<Rightarrow> exn + pystr) \<Rightarrow> change list option \<Rightarrow> 'i \<Rightarrow> hook_info \<Rightarrow> 'm llm
   \<Rightarrow> 'm world \<Rightarrow> (exn + unit) \<times> 'm world" where
  "default_handle cfg filter_diff_content changes merge_info hook_info model w =
     (let w = log INFO 132 w in
      case changes of
        None \<Rightarrow> (Inr (), log INFO 134 w)
      | Some cs \<Rightarrow>
          if cs = [] then (Inr (), log INFO 134 w)
          else if length cs > MAX_FILES cfg then (Inr (), log INFO 138 w)
          else
            let review_files =
                  filter (\<lambda>change. is_reviewable (EXCLUDE_FILE_TYPES cfg)
                             (IGNORE_FILE_TYPES cfg) (new_path change)) cs
            in if review_files = [] then (Inr (), log INFO 150 w)
               else
                 let w = log INFO 153 w in
                 if cs \<noteq> [] \<and> length cs \<le> MAX_FILES cfg then
                   (let w = log INFO 164 w in
                    case chat_review cfg cs
                           (\<lambda>change. generate_review_note cfg filter_diff_content change model) w of
                      (Inl e, w) \<Rightarrow> (Inl e, w)
                    | (Inr review_info, w) \<Rightarrow>
                        if review_info \<noteq> [] then
                          (let w = log INFO 171 w;
                               w = add_reply \<lparr>title = None, content = Text review_info,
                                     msg_type = str ''MAIN, SINGLE'', target = str ''all''\<rparr> w;
                               w = log INFO 180 w;
                               w = add_reply \<lparr>title = Some (str ''__MAIN_REVIEW__''),
                                     content = ReviewDone hook_info (length cs),
                                     msg_type = str ''MAIN, SINGLE'',
                                     target = str ''dingtalk''\<rparr> w
                           in (Inr (), w))
                        else
                          (Inr (), add_reply \<lparr>title = Some (str ''__MAIN_REVIEW__''),
                                     content = ReviewPass hook_info (length cs),
                                     msg_type = str ''MAIN, SINGLE'',
                                     target = str ''dingtalk''\<rparr> w))
                 else if cs \<noteq> [] \<and> length cs > MAX_FILES cfg then
                   (Inr (), add_reply \<lparr>title = Some (str ''__MAIN_REVIEW__''),
                                     content = TooManyFiles hook_info (length cs),
                                     msg_type = str ''MAIN, SINGLE'',
                                     target = str ''dingtalk''\<rparr> w)
                 else (Inr (), log ERROR 238 w))"

definition merge_handle ::
  "config \<Rightarrow> (pystr \<Rightarrow> exn + pystr) \<Rightarrow> 'i fetcher \<Rightarrow> 'r \<Rightarrow> hook_info \<Rightarrow> 'm llm
   \<Rightarrow> 'm world \<Rightarrow> (exn + unit) \<times> 'm world" where
  "merge_handle cfg filter_diff_content gitlabMergeRequestFetcher gitlabRepoManager hook_info
      model w =
     (let w = log INFO 99 w in
      case get_changes gitlabMergeRequestFetcher of
        Inl e \<Rightarrow> (Inl e, w)
      | Inr changes \<Rightarrow>
          (case changes of
             None \<Rightarrow> (Inl TypeError, w)
           | Some cs \<Rightarrow>
               let w = log INFO 108 w;
                   w = log INFO 110 w;
                   w = (if cs \<noteq> [] then fold (\<lambda>change. log INFO 119) cs w else w)
               in case get_info gitlabMergeRequestFetcher of
                    Inl e \<Rightarrow> (Inl e, w)
                  | Inr merge_info \<Rightarrow>
                      default_handle cfg filter_diff_content changes merge_info hook_info
                        model w))"

section \<open>Example inputs\<close>

text \<open>
  Concrete collaborators for the examples below. The state of both model clients is the
  number of calls of \<open>generate_text\<close> so far. \<open>steady_model\<close> always answers;
  \<open>flaky_model\<close> raises on its first two calls and answers from the third call on.
  \<open>world0\<close> is the state before an event, \<open>changed p\<close> a modified file with path
  \<open>p\<close>. The diff filter of the examples is the identity, \<open>Inr\<close>.
\<close>

definition steady_model :: "nat llm" where
  "steady_model = \<lparr> generate_text = (\<lambda>msgs n. (Inr (), Suc n)),
                get_respond_content = (\<lambda>n. Inr (str '' <think>hm</think>LGTM'')),
                get_respond_tokens = (\<lambda>n. Inr (12 * n)) \<rparr>"

definition flaky_model :: "nat llm" where
  "flaky_model = \<lparr> generate_text = (\<lambda>msgs n. (if n < 2 then Inl (External ''timeout'') else Inr (), Suc n)),
                get_respond_content = (\<lambda>n. Inr (str ''LGTM'')),
                get_respond_tokens = (\<lambda>n. Inr 7) \<rparr>"

definition world0 :: "nat world" where
  "world0 = \<lparr> llm_state = 0, sent = [], logs = [], sleeps = [], replies = [] \<rparr>"

definition hook0 :: hook_info where
  "hook0 = \<lparr> project_name = str ''demo'', project_id = str ''1'', source_branch = str ''dev'',
     target_branch = str ''main'', url = str ''http://x/1'', iid = str ''1'' \<rparr>"

definition changed :: "string \<Rightarrow> change" where
  "changed p = \<lparr> new_path = str p, new_file = False, diff = str ''+x'' \<rparr>"

section \<open>Facts about strings\<close>

lemma endswith_iff: "endswith s suffix \<longleftrightarrow> (\<exists>pre. s = pre @ suffix)"
proof
  assume "endswith s suffix"
  then have "s = take (length s - length suffix) s @ suffix"
    by (metis append_take_drop_id endswith_def)
  then show "\<exists>pre. s = pre @ suffix" ..
next
  assume "\<exists>pre. s = pre @ suffix"
  then obtain pre where "s = pre @ suffix" ..
  then show "endswith s suffix" by (simp add: endswith_def)
qed

lemma startswith_iff: "startswith s p \<longleftrightarrow> (\<exists>t. s = p @ t)"
  unfolding startswith_def
  by (metis append_eq_conv_conj append_take_drop_id)

lemma close_tag_not_Nil: "close_tag \<noteq> []"
  by (simp add: close_tag_def str_def)

lemma find_close_None: "find_close s = None \<longleftrightarrow> (\<forall>a b. s \<noteq> a @ close_tag @ b)"
proof (induction s)
  case Nil
  show ?case using close_tag_not_Nil by simp
next
  case (Cons c cs)
  show ?case
  proof (cases "startswith (c # cs) close_tag")
    case True
    then obtain t where "c # cs = close_tag @ t" by (auto simp: startswith_iff)
    then have "c # cs = [] @ close_tag @ t" by simp
    then have "\<exists>a b. c # cs = a @ close_tag @ b" by blast
    with True show ?thesis by simp
  next
    case False
    have "(\<exists>a b. c # cs = a @ close_tag @ b) \<longleftrightarrow> (\<exists>a b. cs = a @ close_tag @ b)"
    proof
      assume "\<exists>a b. c # cs = a @ close_tag @ b"
      then obtain a b where ab: "c # cs = a @ close_tag @ b" by blast
      show "\<exists>a b. cs = a @ close_tag @ b"
      proof (cases a)
        case Nil
        with ab False show ?thesis by (auto simp: startswith_iff)
      next
        case (Cons x a')
        with ab show ?thesis by auto
      qed
    next
      assume "\<exists>a b. cs = a @ close_tag @ b"
      then obtain a b where "cs = a @ close_tag @ b" by blast
      then have "c # cs = (c # a) @ close_tag @ b" by simp
      then show "\<exists>a b. c # cs = a @ close_tag @ b" by blast
    qed
    then have "(\<forall>a b. c # cs \<noteq> a @ close_tag @ b) \<longleftrightarrow> (\<forall>a b. cs \<noteq> a @ close_tag @ b)"
      by blast
    moreover have "find_close (c # cs) = find_close cs" using False by simp
    ultimately show ?thesis using Cons.IH by (simp only:)
  qed
qed

lemma re_sub_think_no_block:
  assumes "\<forall>a b c. s \<noteq> a @ open_tag @ b @ close_tag @ c"
  shows "re_sub_think s = s"
  using assms
proof (induction s)
  case Nil
  show ?case by simp
next
  case (Cons x xs)
  have tl: "\<forall>a b c. xs \<noteq> a @ open_tag @ b @ close_tag @ c"
  proof (intro allI notI)
    fix a b c assume "xs = a @ open_tag @ b @ close_tag @ c"
    then have "x # xs = (x # a) @ open_tag @ b @ close_tag @ c" by simp
    with Cons.prems show False by blast
  qed
  have IH: "re_sub_think xs = xs" using Cons.IH tl by blast
  show ?case
  proof (cases "startswith (x # xs) open_tag")
    case True
    then obtain t where t: "x # xs = open_tag @ t" by (auto simp: startswith_iff)
    have d: "drop (length open_tag) (x # xs) = t" by (subst t) simp
    have "find_close t = None"
    proof (rule ccontr)
      assume "find_close t \<noteq> None"
      then obtain a b where "t = a @ close_tag @ b" by (auto simp: find_close_None)
      with t have "x # xs = [] @ open_tag @ a @ close_tag @ b" by (simp only: append_Nil)
      with Cons.prems show False by blast
    qed
    then have "re_sub_think (x # xs) = x # re_sub_think xs"
      using True by (simp only: re_sub_think.simps d if_True option.case)
    with IH show ?thesis by simp
  next
    case False
    then have "re_sub_think (x # xs) = x # re_sub_think xs" by simp
    with IH show ?thesis by simp
  qed
qed

lemma last_dropWhile: "dropWhile P xs \<noteq> [] \<Longrightarrow> last (dropWhile P xs) = last xs"
  by (induction xs) (auto split: if_splits)

lemma strip_fixed:
  assumes "ys = [] \<or> (\<not> isspace (hd ys) \<and> \<not> isspace (last ys))"
  shows "strip ys = ys"
proof (cases "ys = []")
  case True
  then show ?thesis by (simp add: strip_def)
next
  case False
  with assms have h: "\<not> isspace (hd ys)" and l: "\<not> isspace (hd (rev ys))"
    by (auto simp: hd_rev)
  have "dropWhile isspace ys = ys"
    using h by (simp add: dropWhile_eq_self_iff)
  moreover have "dropWhile isspace (rev ys) = rev ys"
    using l by (simp add: dropWhile_eq_self_iff)
  ultimately show ?thesis by (simp add: strip_def)
qed

lemma strip_ends:
  "strip s = [] \<or> (\<not> isspace (hd (strip s)) \<and> \<not> isspace (last (strip s)))"
proof (cases "strip s = []")
  case True
  then show ?thesis ..
next
  case False
  define t where "t = dropWhile isspace s"
  define u where "u = dropWhile isspace (rev t)"
  have s: "strip s = rev u" by (simp add: strip_def t_def u_def)
  with False have u: "u \<noteq> []" by simp
  then have t: "t \<noteq> []" by (auto simp: u_def)
  have "hd (strip s) = last u" using s u by (simp add: hd_rev)
  also have "\<dots> = last (rev t)" using u unfolding u_def by (rule last_dropWhile)
  also have "\<dots> = hd t" using t by (simp add: last_rev)
  finally have "\<not> isspace (hd (strip s))"
    using t hd_dropWhile [of isspace s] by (simp add: t_def)
  moreover have "last (strip s) = hd u" using s u by (simp add: last_rev)
  then have "\<not> isspace (last (strip s))"
    using u hd_dropWhile [of isspace "rev t"] by (simp add: u_def)
  ultimately show ?thesis by simp
qed

lemma strip_strip: "strip (strip s) = strip s"
  by (rule strip_fixed) (rule strip_ends)

lemma no_close_no_block:
  assumes "find_close s = None"
  shows "\<forall>a b c. s \<noteq> a @ open_tag @ b @ close_tag @ c"
proof (intro allI notI)
  fix a b c assume "s = a @ open_tag @ b @ close_tag @ c"
  then have "s = (a @ open_tag @ b) @ close_tag @ c" by simp
  with assms show False unfolding find_close_None by blast
qed

lemma length_re_sub_think: "length (re_sub_think s) \<le> length s"
proof (induction s rule: re_sub_think.induct)
  case 1
  show ?case by simp
next
  case (2 c cs)
  show ?case
  proof (cases "startswith (c # cs) open_tag")
    case False
    with 2 show ?thesis by simp
  next
    case True
    show ?thesis
    proof (cases "find_close (drop (length open_tag) (c # cs))")
      case None
      with True 2 show ?thesis by simp
    next
      case (Some rest)
      have "length rest \<le> length (drop (length open_tag) (c # cs))"
        using Some by (rule find_close_length)
      then have "length rest \<le> length (c # cs)" by simp
      moreover have "length (re_sub_think rest) \<le> length rest"
        using 2(2) [OF True Some] .
      ultimately show ?thesis using True Some by simp
    qed
  qed
qed

lemma re_sub_think_block:
  assumes "s = a @ open_tag @ b @ close_tag @ c"
  shows "length (re_sub_think s) < length s"
  using assms
proof (induction s arbitrary: a)
  case Nil
  then show ?case by (simp add: open_tag_def str_def)
next
  case (Cons x xs)
  have in_tail: "length (re_sub_think xs) < length xs" if "a \<noteq> []"
  proof -
    from that obtain a' where "a = x # a'" using Cons.prems by (cases a) auto
    with Cons.prems have "xs = a' @ open_tag @ b @ close_tag @ c" by simp
    then show ?thesis by (rule Cons.IH)
  qed
  show ?case
  proof (cases "startswith (x # xs) open_tag")
    case False
    then have "a \<noteq> []" using Cons.prems by (auto simp: startswith_iff)
    with in_tail False show ?thesis by simp
  next
    case True
    show ?thesis
    proof (cases "find_close (drop (length open_tag) (x # xs))")
      case (Some rest)
      have "length rest \<le> length (drop (length open_tag) (x # xs))"
        using Some by (rule find_close_length)
      also have "\<dots> < length (x # xs)" by (simp add: open_tag_def str_def)
      finally have "length rest < length (x # xs)" .
      moreover have "length (re_sub_think rest) \<le> length rest"
        by (rule length_re_sub_think)
      ultimately show ?thesis using True Some by simp
    next
      case None
      have "a \<noteq> []"
      proof
        assume "a = []"
        with Cons.prems have "drop (length open_tag) (x # xs) = b @ close_tag @ c"
          by (simp only: append_Nil) simp
        with None have "\<forall>a' b'. b @ close_tag @ c \<noteq> a' @ close_tag @ b'"
          by (simp add: find_close_None)
        then show False by blast
      qed
      with in_tail True None show ?thesis by simp
    qed
  qed
qed

lemma length_strip: "length (strip s) \<le> length s"
proof -
  have "length (strip s) = length (dropWhile isspace (rev (dropWhile isspace s)))"
    by (simp add: strip_def)
  also have "\<dots> \<le> length (rev (dropWhile isspace s))"
    by (rule length_dropWhile_le)
  also have "\<dots> = length (dropWhile isspace s)" by simp
  also have "\<dots> \<le> length s" by (rule length_dropWhile_le)
  finally show ?thesis .
qed

section \<open>Facts about the worker\<close>

lemma log_fields [simp]:
  "replies (log lv n w) = replies w"
  "sent (log lv n w) = sent w"
  "sleeps (log lv n w) = sleeps w"
  "llm_state (log lv n w) = llm_state w"
  "logs (log lv n w) = logs w @ [(lv, n)]"
  by (simp_all add: log_def)

lemma add_reply_fields [simp]:
  "replies (add_reply r w) = replies w @ [r]"
  "sent (add_reply r w) = sent w"
  "sleeps (add_reply r w) = sleeps w"
  "llm_state (add_reply r w) = llm_state w"
  "logs (add_reply r w) = logs w"
  by (simp_all add: add_reply_def)

lemma review_note_try_frame:
  assumes "review_note_try cfg fdc c m w = (r, w')"
  shows "replies w' = replies w" and "sleeps w' = sleeps w"
    and "length (sent w') \<le> Suc (length (sent w))"
  using assms
  by (auto simp: review_note_try_def Let_def split: sum.splits prod.splits)


lemma generate_review_note_body_returns:
  "\<exists>r w'. generate_review_note_body cfg fdc c m w = (Inr r, w')"
  by (auto simp: generate_review_note_body_def split: sum.splits prod.splits)

lemma retry_call_returns:
  assumes "fn w = (Inr v, w')"
  shows "retry_call n wt fn k w = (Inr v, w')"
  using assms by (subst retry_call.simps) simp

lemma generate_review_note_once:
  "generate_review_note cfg fdc c m w = generate_review_note_body cfg fdc c m w"
proof -
  obtain r w' where b: "generate_review_note_body cfg fdc c m w = (Inr r, w')"
    using generate_review_note_body_returns by blast
  then show ?thesis
    by (simp add: generate_review_note_def retry_def retry_call_returns)
qed

lemma review_note_try_succeeds:
  assumes "\<And>d. \<exists>t. fdc d = Inr t"
    and "\<And>msgs s. \<exists>s'. generate_text m msgs s = (Inr (), s')"
    and "\<And>s. \<exists>t. get_respond_content m s = Inr t"
    and "\<And>s. \<exists>n. get_respond_tokens m s = Inr n"
  shows "\<exists>nt w'. review_note_try cfg fdc c m w = (Inr nt, w')"
proof -
  from assms(1) obtain d where d: "fdc (diff c) = Inr d" by blast
  define msgs where "msgs = [(str ''system'', GPT_MESSAGE cfg),
     (str ''user'', [35831] @ str ''review'' @ [36825, 37096, 20998, 20195, 30721, 21464, 26356] @ d)]"
  define w1 where "w1 = log INFO 61 (log INFO 60 (log INFO 51 (log INFO 43 (log INFO 42 w))))"
  from assms(2) obtain s' where g: "generate_text m msgs (llm_state w1) = (Inr (), s')" by blast
  from assms(3) obtain t where t: "get_respond_content m s' = Inr t" by blast
  from assms(4) obtain n where n: "get_respond_tokens m s' = Inr n" by blast
  from d g t n show ?thesis
    by (simp add: review_note_try_def Let_def msgs_def w1_def)
qed

lemmas run_defs =
  review_note_try_def generate_review_note_body_def generate_review_note_def retry_def
  retry_call.simps process_change_def py_join_def chat_review_def default_handle_def
  merge_handle_def log_def add_reply_def is_reviewable_def endswith_def config_py_def
  str_def Let_def


lemma retry_bare_call:
  "retry 3 60000
     (\<lambda>w. case generate_text flaky_model [] (llm_state w) of (r, m) \<Rightarrow> (r, w\<lparr>llm_state := m\<rparr>))
     world0
   = (Inr (), world0\<lparr>llm_state := 3, sleeps := [60000, 60000]\<rparr>)"
  by (simp add: retry_def retry_call.simps flaky_model_def world0_def)

lemma retry_call_exhausted:
  "(\<And>w. \<exists>e w'. fn w = (Inl e, w')) \<Longrightarrow> \<exists>e w'. retry_call n wt fn k w = (Inl e, w')"
proof (induction n wt fn k w rule: retry_call.induct)
  case (1 n wt fn k w)
  from "1.prems" obtain e w' where f: "fn w = (Inl e, w')" by blast
  show ?case
  proof (cases "n \<le> k")
    case True
    with f show ?thesis by (subst retry_call.simps) simp
  next
    case False
    from "1.IH" [OF f [symmetric] refl False "1.prems"] f False show ?thesis
      by (subst retry_call.simps) simp
  qed
qed

section \<open>Facts about the dispatcher and the handler\<close>

lemma default_handle_over_limit:
  assumes "MAX_FILES cfg < length cs"
  shows "default_handle cfg fdc (Some cs) mi hi m w = (Inr (), log INFO 138 (log INFO 132 w))"
  using assms by (auto simp: default_handle_def Let_def)

lemma default_handle_no_review_files:
  assumes "cs \<noteq> []" and "length cs \<le> MAX_FILES cfg"
    and "\<forall>c \<in> set cs. \<not> is_reviewable (EXCLUDE_FILE_TYPES cfg) (IGNORE_FILE_TYPES cfg) (new_path c)"
  shows "default_handle cfg fdc (Some cs) mi hi m w = (Inr (), log INFO 150 (log INFO 132 w))"
proof -
  have "filter (\<lambda>change. is_reviewable (EXCLUDE_FILE_TYPES cfg) (IGNORE_FILE_TYPES cfg)
           (new_path change)) cs = []"
    using assms(3) by (simp add: filter_empty_conv)
  with assms(1,2) show ?thesis
    by (simp add: default_handle_def Let_def)
qed

lemma default_handle_falsy:
  "default_handle cfg fdc None mi hi m w = (Inr (), log INFO 134 (log INFO 132 w))"
  "default_handle cfg fdc (Some []) mi hi m w = (Inr (), log INFO 134 (log INFO 132 w))"
  by (simp_all add: default_handle_def Let_def)

lemma readme_not_reviewable:
  "\<not> is_reviewable (EXCLUDE_FILE_TYPES (config_py [])) (IGNORE_FILE_TYPES (config_py []))
       (new_path (changed ''README.md''))"
  by (simp add: is_reviewable_def endswith_def config_py_def changed_def str_def)




lemma submit_changes_results:
  assumes "\<And>c w. \<exists>r w'. gr c w = (Inr r, w') \<and> replies w' = replies w \<and> P r"
  shows "\<exists>rs' w'. submit_changes cfg gr cs (rs, w) = (rs', w') \<and> replies w' = replies w
      \<and> length rs' = length rs + length (filter (\<lambda>c. is_reviewable (EXCLUDE_FILE_TYPES cfg)
            (IGNORE_FILE_TYPES cfg) (new_path c)) cs)
      \<and> (\<forall>r \<in> set rs'. r \<in> set rs \<or> P r)"
proof (induction cs arbitrary: rs w)
  case Nil
  show ?case by simp
next
  case (Cons c cs)
  show ?case
  proof (cases "is_reviewable (EXCLUDE_FILE_TYPES cfg) (IGNORE_FILE_TYPES cfg) (new_path c)")
    case False
    with Cons.IH [of rs "log INFO 31 w"] show ?thesis by simp
  next
    case True
    from assms [of c w] obtain r w1 where g: "gr c w = (Inr r, w1)"
      and f: "replies w1 = replies w" and p: "P r" by blast
    from Cons.IH [of "rs @ [r]" w1] obtain rs' w' where
      "submit_changes cfg gr cs (rs @ [r], w1) = (rs', w')" and "replies w' = replies w1"
      and "length rs' = length (rs @ [r]) + length (filter (\<lambda>c. is_reviewable
            (EXCLUDE_FILE_TYPES cfg) (IGNORE_FILE_TYPES cfg) (new_path c)) cs)"
      and "\<forall>x \<in> set rs'. x \<in> set (rs @ [r]) \<or> P x" by blast
    with True g f p show ?thesis
      by (auto simp: process_change_def)
  qed
qed


lemma all_str_total:
  "\<forall>r \<in> set items. \<exists>x. r = Some x \<Longrightarrow> \<exists>xs. all_str items = Some xs"
  by (induction items rule: all_str.induct) auto

lemma generate_review_note_succeeds:
  assumes "\<And>d. \<exists>t. fdc d = Inr t"
    and "\<And>msgs s. \<exists>s'. generate_text m msgs s = (Inr (), s')"
    and "\<And>s. \<exists>t. get_respond_content m s = Inr t"
    and "\<And>s. \<exists>n. get_respond_tokens m s = Inr n"
  shows "\<exists>r w'. generate_review_note cfg fdc c m w = (Inr r, w') \<and> replies w' = replies w
      \<and> (\<exists>x. r = Some x)"
proof -
  have "\<exists>nt w'. review_note_try cfg fdc c m w = (Inr nt, w')"
    by (rule review_note_try_succeeds) (rule assms)+
  then obtain nt w' where t: "review_note_try cfg fdc c m w = (Inr nt, w')" by blast
  with review_note_try_frame(1) [OF t] show ?thesis
    by (simp add: generate_review_note_once generate_review_note_body_def)
qed

lemma default_handle_returns:
  assumes "\<And>d. \<exists>t. fdc d = Inr t"
    and "\<And>msgs s. \<exists>s'. generate_text m msgs s = (Inr (), s')"
    and "\<And>s. \<exists>t. get_respond_content m s = Inr t"
    and "\<And>s. \<exists>n. get_respond_tokens m s = Inr n"
  shows "fst (default_handle cfg fdc changes mi hi m w) = Inr ()"
proof -
  have "\<exists>info w'. chat_review cfg cs (\<lambda>change. generate_review_note cfg fdc change m) w0
      = (Inr info, w')" for cs and w0 :: "'a world"
  proof -
    have "\<exists>r w'. generate_review_note cfg fdc c m w1 = (Inr r, w') \<and> replies w' = replies w1
        \<and> (\<exists>x. r = Some x)" for c and w1 :: "'a world"
      by (rule generate_review_note_succeeds) (rule assms)+
    from submit_changes_results [of "\<lambda>change. generate_review_note cfg fdc change m"
        "\<lambda>r. \<exists>x. r = Some x" cfg cs "[]" "log INFO 12 w0", OF this]
    obtain rs w' where s: "submit_changes cfg (\<lambda>change. generate_review_note cfg fdc change m)
        cs ([], log INFO 12 w0) = (rs, w')"
      and "\<forall>r \<in> set rs. \<exists>x. r = Some x" by auto
    then obtain xs where "all_str rs = Some xs" using all_str_total by blast
    with s show ?thesis by (simp add: chat_review_def py_join_def)
  qed
  then obtain info w' where
    "chat_review cfg (the changes) (\<lambda>change. generate_review_note cfg fdc change m)
       (log INFO 164 (log INFO 153 (log INFO 132 w))) = (Inr info, w')" by blast
  then show ?thesis
    by (cases changes) (simp_all add: default_handle_def Let_def)
qed



section \<open>The file filter (C6)\<close>

text \<open>
  C6. For every path \<open>p\<close> and extension lists \<open>inc\<close>, \<open>ign\<close>: the filter holds iff \<open>p\<close>
  ends with some member of \<open>inc\<close> and with no member of \<open>ign\<close>; a path that ends with a
  member of both is excluded (ignore overrides include). Ending with a suffix is
  equality of code points (so case-sensitive), on the path as given (no normalisation).
\<close>

theorem C6_file_filter:
  "(is_reviewable inc ign p \<longleftrightarrow>
      (\<exists>ext \<in> set inc. \<exists>pre. p = pre @ ext) \<and> (\<forall>ext \<in> set ign. \<forall>pre. p \<noteq> pre @ ext))
   \<and> ((\<exists>ext \<in> set inc. \<exists>pre. p = pre @ ext) \<and> (\<exists>ext \<in> set ign. \<exists>pre. p = pre @ ext)
        \<longrightarrow> \<not> is_reviewable inc ign p)"
  by (auto simp: is_reviewable_def list_ex_iff endswith_iff)

theorem C6_file_filter_witness:
  "(\<exists>ext \<in> set [str ''.go'']. \<exists>pre. str ''go/mod.go'' = pre @ ext)
   \<and> (\<exists>ext \<in> set [str ''mod.go'']. \<exists>pre. str ''go/mod.go'' = pre @ ext)
   \<and> \<not> is_reviewable [str ''.go''] [str ''mod.go''] (str ''go/mod.go'')
   \<and> is_reviewable [str ''.go''] [str ''mod.go''] (str ''main.go'')"
proof -
  have inc: "\<exists>ext \<in> set [str ''.go'']. \<exists>pre. str ''go/mod.go'' = pre @ ext"
    by (simp add: str_def)
  have ign: "\<exists>ext \<in> set [str ''mod.go'']. \<exists>pre. str ''go/mod.go'' = pre @ ext"
    by (simp add: str_def)
  have inc': "\<exists>ext \<in> set [str ''.go'']. \<exists>pre. str ''main.go'' = pre @ ext"
    by (simp add: str_def)
  have ign': "\<forall>ext \<in> set [str ''mod.go'']. \<forall>pre. str ''main.go'' \<noteq> pre @ ext"
    by (simp add: str_def append_eq_Cons_conv)
  from inc ign inc' ign'
    C6_file_filter [of "[str ''.go'']" "[str ''mod.go'']" "str ''go/mod.go''"]
    C6_file_filter [of "[str ''.go'']" "[str ''mod.go'']" "str ''main.go''"]
  show ?thesis by blast
qed

section \<open>Stripping the reasoning block (C7, C8)\<close>

text \<open>
  C7, as stated, fails: removing a block can join the fragments around it into a new
  block, which a second application removes. Here the first application yields
  \<open><think>y</think>\<close> and the second the empty string.
\<close>

theorem C7_counterexample:
  "remove_think_content (remove_think_content (str ''<thi<think>x</think>nk>y</think>''))
     \<noteq> remove_think_content (str ''<thi<think>x</think>nk>y</think>'')"
proof -
  have "remove_think_content (str ''<thi<think>x</think>nk>y</think>'') = str ''<think>y</think>''"
    by (simp add: remove_think_content_def str_def open_tag_def close_tag_def startswith_def
        strip_def isspace_def)
  moreover have "remove_think_content (str ''<think>y</think>'') = []"
    by (simp add: remove_think_content_def str_def open_tag_def close_tag_def startswith_def
        strip_def isspace_def)
  ultimately show ?thesis by (simp add: str_def)
qed

text \<open>
  C7 (amended). Applying \<open>remove_think_content\<close> twice gives the same result as
  applying it once exactly when the result of the first application contains no
  complete \<open><think>\<dots></think>\<close> block.
\<close>

theorem C7_idempotent_iff:
  "remove_think_content (remove_think_content s) = remove_think_content s
   \<longleftrightarrow> (\<forall>a b c. remove_think_content s \<noteq> a @ open_tag @ b @ close_tag @ c)"
proof
  assume no: "\<forall>a b c. remove_think_content s \<noteq> a @ open_tag @ b @ close_tag @ c"
  have "re_sub_think (remove_think_content s) = remove_think_content s"
    using no by (rule re_sub_think_no_block)
  then show "remove_think_content (remove_think_content s) = remove_think_content s"
    by (simp add: remove_think_content_def strip_strip)
next
  assume idem: "remove_think_content (remove_think_content s) = remove_think_content s"
  show "\<forall>a b c. remove_think_content s \<noteq> a @ open_tag @ b @ close_tag @ c"
  proof (intro allI notI)
    fix a b c
    assume "remove_think_content s = a @ open_tag @ b @ close_tag @ c"
    then have "length (re_sub_think (remove_think_content s)) < length (remove_think_content s)"
      by (rule re_sub_think_block)
    moreover have "length (remove_think_content (remove_think_content s))
        \<le> length (re_sub_think (remove_think_content s))"
      by (subst remove_think_content_def) (rule length_strip)
    ultimately show False using idem by simp
  qed
qed

theorem C7_idempotent_iff_witness:
  "(\<forall>a b c. remove_think_content (str ''a<think>x</think> b <think>'')
       \<noteq> a @ open_tag @ b @ close_tag @ c)
   \<and> remove_think_content (remove_think_content (str ''a<think>x</think> b <think>''))
       = remove_think_content (str ''a<think>x</think> b <think>'')"
proof -
  have r: "remove_think_content (str ''a<think>x</think> b <think>'') = str ''a b <think>''"
    by (simp add: remove_think_content_def str_def open_tag_def close_tag_def startswith_def
        strip_def isspace_def)
  have "find_close (str ''a b <think>'') = None"
    by (simp add: str_def close_tag_def startswith_def)
  then have "\<forall>a b c. str ''a b <think>'' \<noteq> a @ open_tag @ b @ close_tag @ c"
    by (rule no_close_no_block)
  with r C7_idempotent_iff [of "str ''a<think>x</think> b <think>''"] show ?thesis
    by simp
qed




section \<open>The review worker (C10)\<close>



section \<open>The notification policy (C1, C2, C4)\<close>

text \<open>
  C1 (the code at an event over the limit). With 51 changed files and
  \<open>MAX_FILES = 50\<close>, \<open>default_handle\<close> returns at line 139 after two log lines:
  nothing is reviewed, and no notification is emitted either, although lines 219-235
  build the over-limit notification for exactly this condition. The claim expects that
  notification.
\<close>

theorem C1_over_limit_silent:
  "default_handle (config_py prompt) fdc (Some (replicate 51 c)) mi hi m w
     = (Inr (), log INFO 138 (log INFO 132 w))
   \<and> replies (snd (default_handle (config_py prompt) fdc (Some (replicate 51 c)) mi hi m w))
     = replies w"
  by (simp add: default_handle_over_limit config_py_def)




text \<open>
  C4, as stated, fails: one changed file, within the limit, not passing the filter, and
  the handler emits no notification.
\<close>

theorem C4_counterexample:
  "[changed ''README.md''] \<noteq> []
   \<and> length [changed ''README.md''] \<le> MAX_FILES (config_py [])
   \<and> \<not> is_reviewable (EXCLUDE_FILE_TYPES (config_py [])) (IGNORE_FILE_TYPES (config_py []))
         (new_path (changed ''README.md''))
   \<and> replies (snd (default_handle (config_py []) Inr (Some [changed ''README.md'']) () hook0
         steady_model world0)) = []"
proof -
  have "default_handle (config_py []) Inr (Some [changed ''README.md'']) () hook0 steady_model world0
      = (Inr (), log INFO 150 (log INFO 132 world0))"
    by (rule default_handle_no_review_files) (simp_all add: readme_not_reviewable, simp add: config_py_def)
  then show ?thesis
    by (simp add: readme_not_reviewable world0_def) (simp add: config_py_def)
qed

text \<open>
  C4 (amended). For every event whose change list is non-empty, within \<open>MAX_FILES\<close>
  and without a file passing the filter, the handler logs lines 132 and 150 and
  returns normally: no notification is emitted and the model is not called.
\<close>

theorem C4_no_reviewable_files_silent:
  assumes "cs \<noteq> []" and "length cs \<le> MAX_FILES cfg"
    and "\<forall>c \<in> set cs. \<not> is_reviewable (EXCLUDE_FILE_TYPES cfg) (IGNORE_FILE_TYPES cfg) (new_path c)"
  shows "default_handle cfg fdc (Some cs) mi hi m w = (Inr (), log INFO 150 (log INFO 132 w))
    \<and> replies (snd (default_handle cfg fdc (Some cs) mi hi m w)) = replies w
    \<and> sent (snd (default_handle cfg fdc (Some cs) mi hi m w)) = sent w"
  by (simp add: default_handle_no_review_files [OF assms])

theorem C4_no_reviewable_files_silent_witness:
  "default_handle (config_py []) Inr (Some [changed ''README.md'']) () hook0 steady_model world0
      = (Inr (), log INFO 150 (log INFO 132 world0))"
proof -
  have 1: "[changed ''README.md''] \<noteq> []" by simp
  have 2: "length [changed ''README.md''] \<le> MAX_FILES (config_py [])" by (simp add: config_py_def)
  have 3: "\<forall>c \<in> set [changed ''README.md'']. \<not> is_reviewable (EXCLUDE_FILE_TYPES (config_py []))
      (IGNORE_FILE_TYPES (config_py [])) (new_path c)"
    by (simp add: readme_not_reviewable)
  from C4_no_reviewable_files_silent [OF 1 2 3, of Inr "()" hook0 steady_model world0]
  show ?thesis by blast
qed

section \<open>The retry contract (C3)\<close>

text \<open>
  C3 (the code at a model that fails twice and then succeeds). \<open>flaky_model\<close> raises
  on its first two calls and succeeds from the third on. The worker calls it once, gets
  the exception, returns \<open>None\<close> without sleeping and without a second attempt; the
  dispatcher then raises \<open>TypeError\<close> when it joins the results. The claim expects
  three attempts and a note.
\<close>

theorem C3_no_retry_and_dispatcher_raises:
  "fst (generate_text flaky_model msgs 2) = Inr ()
   \<and> fst (generate_review_note (config_py []) Inr (changed ''a.py'') flaky_model world0) = Inr None
   \<and> sleeps (snd (generate_review_note (config_py []) Inr (changed ''a.py'') flaky_model world0)) = []
   \<and> llm_state (snd (generate_review_note (config_py []) Inr (changed ''a.py'') flaky_model world0)) = 1
   \<and> fst (chat_review (config_py []) [changed ''a.py'']
        (\<lambda>change. generate_review_note (config_py []) Inr change flaky_model) world0)
       = Inl TypeError"
  by (simp add: run_defs flaky_model_def world0_def changed_def)

section \<open>A failed fetch (C5)\<close>

text \<open>
  C5 (the code when \<open>get_changes()\<close> returns \<open>None\<close>). \<open>merge_handle\<close> raises
  \<open>TypeError\<close> at line 108, after one log line and before \<open>default_handle\<close> is
  reached; \<open>default_handle\<close> itself, called with \<open>None\<close>, would log and return. The
  claim expects the handler to return without raising.
\<close>

theorem C5_fetch_none_raises:
  "merge_handle cfg fdc \<lparr>get_changes = Inr None, get_info = gi\<rparr> rm hi m w
     = (Inl TypeError, log INFO 99 w)
   \<and> default_handle cfg fdc None mi hi m w = (Inr (), log INFO 134 (log INFO 132 w))"
  by (simp add: merge_handle_def default_handle_falsy)

end
